theory Spec2Isabelle
  imports Main "HOL-Library.AList"
begin

section \<open>Tappable: the timers, the shared storage and the instances\<close>

text \<open>
  The embedding follows \<^verbatim>\<open>src/components/Tappable/Tappable.tsx\<close>.

  \<^item> The module-level object \<^verbatim>\<open>storage\<close> is an association list from instance ids to
    items; \<^verbatim>\<open>storage[id] = v\<close> is \<open>AList.update\<close>, \<^verbatim>\<open>delete storage[id]\<close> is
    \<open>AList.delete\<close>, \<^verbatim>\<open>Object.keys(storage)\<close> is \<open>map fst\<close>.
  \<^item> The browser's timer table is an association list from handles to pending timers.
    \<^verbatim>\<open>window.setTimeout\<close> hands out the next unused handle; a timer that fires or is
    cleared leaves the table; clearing a handle that is not in the table does nothing.
  \<^item> A callback given to \<^verbatim>\<open>setTimeout\<close> is a bound method of one instance, written as
    a value of type \<open>callback\<close> that names the method and the instance.
  \<^item> \<^verbatim>\<open>Date.now()\<close> is the field \<open>clock\<close> of the world, set when a step begins.
  \<^item> \<^verbatim>\<open>this.setState\<close> is applied at once. No handler reads the state of an instance
    after writing it within the same step, so the batching of React does not show
    between steps. On an unmounted component \<^verbatim>\<open>setState\<close> changes nothing.
  \<^item> The order in which \<^verbatim>\<open>Object.keys\<close> lists the ids does not matter: by the lemmas
    \<open>purge_storage\<close>, \<open>purge_getStorage\<close>, \<open>purge_instances\<close> and \<open>purge_timers\<close> the
    outcome of \<^verbatim>\<open>deactivateOtherInstances\<close> depends on the set of the ids it visits.
  \<^item> Left out, since no gesture handler reads them: \<^verbatim>\<open>stopPropagation\<close> on the event,
    the hover state (\<^verbatim>\<open>hovered\<close>, \<^verbatim>\<open>hasHover\<close>), and the class names that \<^verbatim>\<open>render\<close>
    derives from the state.
\<close>

datatype callback =
    Start string
  | Stop string
  | WaveExpire string int

fun owner :: "callback \<Rightarrow> string" where
  "owner (Start i) = i"
| "owner (Stop i) = i"
| "owner (WaveExpire i k) = i"

record timer =
  callback :: callback
  delay :: int
  setAt :: int

text \<open>
  \<^verbatim>\<open>interface StorageItem { activeTimeout: number; timeout?: number; stop(): void }\<close>.
  The only write of an item is \<^verbatim>\<open>storage[this.id] = { stop: this.stop, activeTimeout: ... }\<close>,
  so the member \<^verbatim>\<open>stop\<close> of the item under key \<open>id\<close> is always the method \<^verbatim>\<open>stop\<close> of
  the instance \<open>id\<close>: the key stands for it.
\<close>

record StorageItem =
  activeTimeout :: nat
  timeout :: "nat option"

text \<open>
  One instance: \<^verbatim>\<open>this.state\<close> (\<open>clicks\<close>, \<open>active\<close>, \<open>ts\<close>, \<open>hasActive\<close>), the plain members
  (\<open>isSlide\<close>, \<^verbatim>\<open>this.timeout\<close>, \<open>wavesTimeout\<close>), the props the gesture handlers read, and
  whether the component is mounted. A ripple's key \<^verbatim>\<open>'wave' + Date.now()\<close> is kept as the
  time stamp.
\<close>

record Tappable =
  clicks :: "(int \<times> int \<times> int) list"
  active :: bool
  ts :: "int option"
  hasActive :: bool
  isSlide :: bool
  this_timeout :: "nat option"
  wavesTimeout :: "nat option"
  activeEffectDelay :: int
  android :: bool
  disabled :: bool
  mounted :: bool

record TappableProps =
  p_hasActive :: bool
  p_activeEffectDelay :: int
  p_android :: bool
  p_disabled :: bool

record world =
  storage :: "(string \<times> StorageItem) list"
  instances :: "string \<Rightarrow> Tappable option"
  timers :: "(nat \<times> timer) list"
  nextHandle :: nat
  clock :: int

definition ACTIVE_DELAY :: int where
  "ACTIVE_DELAY = 70"

definition ACTIVE_EFFECT_DELAY :: int where
  "ACTIVE_EFFECT_DELAY = 600"

definition defaultProps :: TappableProps where
  "defaultProps =
     \<lparr>p_hasActive = True, p_activeEffectDelay = ACTIVE_EFFECT_DELAY,
      p_android = False, p_disabled = False\<rparr>"

definition constructor :: "TappableProps \<Rightarrow> Tappable" where
  "constructor p =
     \<lparr>clicks = [], active = False, ts = None, hasActive = p_hasActive p,
      isSlide = False, this_timeout = None, wavesTimeout = None,
      activeEffectDelay = p_activeEffectDelay p, android = p_android p,
      disabled = p_disabled p, mounted = True\<rparr>"

definition init :: world where
  "init = \<lparr>storage = [], instances = (\<lambda>i. None), timers = [], nextHandle = 1, clock = 0\<rparr>"

subsection \<open>Timers and state updates\<close>

definition setTimeout :: "callback \<Rightarrow> int \<Rightarrow> world \<Rightarrow> nat \<times> world" where
  "setTimeout cb d w =
     (nextHandle w,
      w\<lparr>timers := timers w @ [(nextHandle w, \<lparr>callback = cb, delay = d, setAt = clock w\<rparr>)],
        nextHandle := Suc (nextHandle w)\<rparr>)"

definition clearTimeout :: "nat option \<Rightarrow> world \<Rightarrow> world" where
  "clearTimeout h w =
     (case h of None \<Rightarrow> w | Some k \<Rightarrow> w\<lparr>timers := AList.delete k (timers w)\<rparr>)"

definition setState :: "string \<Rightarrow> (Tappable \<Rightarrow> Tappable) \<Rightarrow> world \<Rightarrow> world" where
  "setState i f w =
     (case instances w i of
        None \<Rightarrow> w
      | Some t \<Rightarrow> if mounted t then w\<lparr>instances := (instances w)(i \<mapsto> f t)\<rparr> else w)"

text \<open>An assignment to a plain member (\<^verbatim>\<open>this.isSlide = ...\<close>).\<close>

definition setMember :: "string \<Rightarrow> (Tappable \<Rightarrow> Tappable) \<Rightarrow> world \<Rightarrow> world" where
  "setMember i f w =
     (case instances w i of
        None \<Rightarrow> w
      | Some t \<Rightarrow> w\<lparr>instances := (instances w)(i \<mapsto> f t)\<rparr>)"

definition getStorage :: "string \<Rightarrow> world \<Rightarrow> StorageItem option" where
  "getStorage i w = map_of (storage w) i"

subsection \<open>The methods\<close>

definition stop :: "string \<Rightarrow> world \<Rightarrow> world" where
  "stop i w =
     (let w1 = (case instances w i of
                  None \<Rightarrow> w
                | Some t \<Rightarrow>
                    if active t then setState i (\<lambda>s. s\<lparr>active := False, ts := None\<rparr>) w
                    else w)
      in case getStorage i w1 of
           None \<Rightarrow> w1
         | Some item \<Rightarrow>
             (clearTimeout (Some (activeTimeout item)) w1)
               \<lparr>storage := AList.delete i (storage w1)\<rparr>)"

text \<open>One round of the \<^verbatim>\<open>forEach\<close> of \<^verbatim>\<open>deactivateOtherInstances\<close>.\<close>

definition purgeOne :: "string \<Rightarrow> world \<Rightarrow> world" where
  "purgeOne k w =
     (case getStorage k w of
        None \<Rightarrow> w
      | Some item \<Rightarrow>
          (let w1 = clearTimeout (Some (activeTimeout item)) w;
               w2 = clearTimeout (timeout item) w1;
               w3 = stop k w2
           in w3\<lparr>storage := AList.delete k (storage w3)\<rparr>))"

definition deactivateOtherInstances :: "string option \<Rightarrow> world \<Rightarrow> world" where
  "deactivateOtherInstances exclude w =
     fold purgeOne (filter (\<lambda>k. Some k \<noteq> exclude) (map fst (storage w))) w"

definition start :: "string \<Rightarrow> world \<Rightarrow> world" where
  "start i w =
     deactivateOtherInstances (Some i)
       (case instances w i of
          None \<Rightarrow> w
        | Some t \<Rightarrow>
            if \<not> active t \<and> hasActive t
            then setState i (\<lambda>s. s\<lparr>active := True, ts := Some (clock w)\<rparr>) w
            else w)"

definition onDown :: "string \<Rightarrow> int \<Rightarrow> int \<Rightarrow> world \<Rightarrow> world" where
  "onDown i x y w =
     (case instances w i of
        None \<Rightarrow> w
      | Some t \<Rightarrow>
          if android t then
            (let key = clock w;
                 w1 = setState i (\<lambda>s. s\<lparr>clicks := AList.update key (x, y) (clicks s)\<rparr>) w;
                 (h, w2) = setTimeout (WaveExpire i key) 225 w1
             in setMember i (\<lambda>s. s\<lparr>wavesTimeout := Some h\<rparr>) w2)
          else w)"

definition waveExpire :: "string \<Rightarrow> int \<Rightarrow> world \<Rightarrow> world" where
  "waveExpire i key w = setState i (\<lambda>s. s\<lparr>clicks := AList.delete key (clicks s)\<rparr>) w"

text \<open>
  \<^verbatim>\<open>originalEvent.touches\<close> is absent on a mouse event (\<open>None\<close>) and a list on a touch
  event, of which the handlers read the length only.
\<close>

definition onStart :: "string \<Rightarrow> nat option \<Rightarrow> int \<Rightarrow> int \<Rightarrow> world \<Rightarrow> world" where
  "onStart i touches x y w =
     (case instances w i of
        None \<Rightarrow> w
      | Some t \<Rightarrow>
          if hasActive t then
            (if (case touches of None \<Rightarrow> False | Some n \<Rightarrow> 1 < n)
             then deactivateOtherInstances None w
             else
               (let w1 = (if android t then onDown i x y w else w);
                    (h, w2) = setTimeout (Start i) ACTIVE_DELAY w1
                in w2\<lparr>storage :=
                       AList.update i \<lparr>activeTimeout = h, timeout = None\<rparr> (storage w2)\<rparr>))
          else w)"

definition onMove :: "string \<Rightarrow> int \<Rightarrow> int \<Rightarrow> world \<Rightarrow> world" where
  "onMove i shiftXAbs shiftYAbs w =
     (if 20 < shiftXAbs \<or> 20 < shiftYAbs
      then stop i (setMember i (\<lambda>s. s\<lparr>isSlide := True\<rparr>) w)
      else w)"

text \<open>In \<^verbatim>\<open>now - this.state.ts\<close> a \<^verbatim>\<open>null\<close> time stamp counts as 0.\<close>

definition tsValue :: "Tappable \<Rightarrow> int" where
  "tsValue t = (case ts t of None \<Rightarrow> 0 | Some s \<Rightarrow> s)"

definition onEnd :: "string \<Rightarrow> nat option \<Rightarrow> world \<Rightarrow> world" where
  "onEnd i touches w =
     (let now = clock w in
      if (case touches of None \<Rightarrow> False | Some n \<Rightarrow> 0 < n)
      then stop i (setMember i (\<lambda>s. s\<lparr>isSlide := False\<rparr>) w)
      else
        (case instances w i of
           None \<Rightarrow> w
         | Some t \<Rightarrow>
             (let w' =
                (if active t then
                   (if 100 \<le> now - tsValue t then stop i w
                    else
                      (let (h, w1) =
                             setTimeout (Stop i) (activeEffectDelay t - now + tsValue t) w
                       in case getStorage i w1 of
                            None \<Rightarrow> w1
                          | Some item \<Rightarrow>
                              w1\<lparr>storage :=
                                   AList.update i (item\<lparr>timeout := Some h\<rparr>) (storage w1)\<rparr>))
                 else if \<not> isSlide t then
                   (let w1 = start i w;
                        (h, w2) = setTimeout (Stop i) (activeEffectDelay t) w1
                    in case getStorage i w2 of
                         Some item \<Rightarrow>
                           (clearTimeout (Some (activeTimeout item)) w2)
                             \<lparr>storage :=
                                AList.update i (item\<lparr>timeout := Some h\<rparr>) (storage w2)\<rparr>
                       | None \<Rightarrow> setMember i (\<lambda>s. s\<lparr>this_timeout := Some h\<rparr>) w2)
                 else w)
              in setMember i (\<lambda>s. s\<lparr>isSlide := False\<rparr>) w')))"

definition componentWillUnmount :: "string \<Rightarrow> world \<Rightarrow> world" where
  "componentWillUnmount i w =
     (let w1 = (case getStorage i w of
                  None \<Rightarrow> w
                | Some item \<Rightarrow>
                    (clearTimeout (Some (activeTimeout item)) (clearTimeout (timeout item) w))
                      \<lparr>storage := AList.delete i (storage w)\<rparr>)
      in clearTimeout (case instances w1 i of None \<Rightarrow> None | Some t \<Rightarrow> wavesTimeout t) w1)"

text \<open>
  \<^verbatim>\<open>componentDidUpdate\<close> and the callbacks a nested instance gets through the context
  write \<^verbatim>\<open>state.hasActive\<close>.
\<close>

definition setHasActive :: "string \<Rightarrow> bool \<Rightarrow> world \<Rightarrow> world" where
  "setHasActive i b w = setState i (\<lambda>s. s\<lparr>hasActive := b\<rparr>) w"

subsection \<open>Steps\<close>

text \<open>
  A step is one handler or one timer callback, run to its end at a given time. The gesture
  handlers are wired by \<^verbatim>\<open>render\<close> on a mounted instance that is not disabled; a timer
  callback runs whenever its timer is still in the table.
\<close>

datatype event =
    Mount string TappableProps
  | OnStart string "nat option" int int
  | OnMove string int int
  | OnEnd string "nat option"
  | Fire nat
  | SetHasActive string bool
  | Unmount string

definition wired :: "world \<Rightarrow> string \<Rightarrow> bool" where
  "wired w i = (case instances w i of None \<Rightarrow> False | Some t \<Rightarrow> mounted t \<and> \<not> disabled t)"

definition isMounted :: "world \<Rightarrow> string \<Rightarrow> bool" where
  "isMounted w i = (case instances w i of None \<Rightarrow> False | Some t \<Rightarrow> mounted t)"

fun runCallback :: "callback \<Rightarrow> world \<Rightarrow> world" where
  "runCallback (Start i) w = start i w"
| "runCallback (Stop i) w = stop i w"
| "runCallback (WaveExpire i k) w = waveExpire i k w"

definition fire :: "nat \<Rightarrow> world \<Rightarrow> world" where
  "fire h w =
     (case map_of (timers w) h of
        None \<Rightarrow> w
      | Some tm \<Rightarrow> runCallback (callback tm) (w\<lparr>timers := AList.delete h (timers w)\<rparr>))"

fun dispatch :: "event \<Rightarrow> world \<Rightarrow> world" where
  "dispatch (Mount i p) w =
     (case instances w i of
        None \<Rightarrow> w\<lparr>instances := (instances w)(i \<mapsto> constructor p)\<rparr>
      | Some t \<Rightarrow> w)"
| "dispatch (OnStart i touches x y) w = (if wired w i then onStart i touches x y w else w)"
| "dispatch (OnMove i sx sy) w = (if wired w i then onMove i sx sy w else w)"
| "dispatch (OnEnd i touches) w = (if wired w i then onEnd i touches w else w)"
| "dispatch (Fire h) w = fire h w"
| "dispatch (SetHasActive i b) w = setHasActive i b w"
| "dispatch (Unmount i) w =
     (if isMounted w i
      then setMember i (\<lambda>s. s\<lparr>mounted := False\<rparr>) (componentWillUnmount i w)
      else w)"

definition step :: "int \<times> event \<Rightarrow> world \<Rightarrow> world" where
  "step te w = dispatch (snd te) (w\<lparr>clock := fst te\<rparr>)"

definition run :: "(int \<times> event) list \<Rightarrow> world" where
  "run es = fold step es init"

subsection \<open>What is observed between steps\<close>

definition isActive :: "world \<Rightarrow> string \<Rightarrow> bool" where
  "isActive w i = (case instances w i of None \<Rightarrow> False | Some t \<Rightarrow> mounted t \<and> active t)"

definition hasEntry :: "world \<Rightarrow> string \<Rightarrow> bool" where
  "hasEntry w i = (case getStorage i w of None \<Rightarrow> False | Some item \<Rightarrow> True)"

definition timersOf :: "world \<Rightarrow> string \<Rightarrow> (nat \<times> timer) list" where
  "timersOf w i = filter (\<lambda>ht. owner (callback (snd ht)) = i) (timers w)"

definition pendingActivation :: "world \<Rightarrow> string \<Rightarrow> bool" where
  "pendingActivation w i = list_ex (\<lambda>ht. callback (snd ht) = Start i) (timers w)"

subsection \<open>Histories that can happen\<close>

text \<open>
  \<^verbatim>\<open>window.setTimeout\<close> takes its delay as a signed 32-bit integer: the argument is
  reduced modulo \<open>2 ^ 32\<close> into the range from \<open>- 2 ^ 31\<close> to \<open>2 ^ 31 - 1\<close>, and a negative
  outcome counts as 0. The field \<open>delay\<close> of a timer keeps the argument as the code passed
  it; \<open>timerDelay\<close> is the time the browser waits at least.
\<close>

definition timerDelay :: "int \<Rightarrow> int" where
  "timerDelay d = max 0 ((d + 2147483648) mod 4294967296 - 2147483648)"

text \<open>
  A history is a list of steps with their times. It can happen when time does not run
  backwards, a gesture event reaches a wired instance, an instance is mounted once under
  its id and unmounted while mounted, and a timer fires while it is in the table and not
  before the time the browser waits for it has passed.
\<close>

definition canHappen :: "int \<times> event \<Rightarrow> world \<Rightarrow> bool" where
  "canHappen te w =
     (clock w \<le> fst te \<and>
      (case snd te of
         Mount i p \<Rightarrow> (case instances w i of None \<Rightarrow> True | Some t \<Rightarrow> False)
       | OnStart i touches x y \<Rightarrow> wired w i
       | OnMove i sx sy \<Rightarrow> wired w i
       | OnEnd i touches \<Rightarrow> wired w i
       | Fire h \<Rightarrow>
           (case map_of (timers w) h of
              None \<Rightarrow> False
            | Some tm \<Rightarrow> setAt tm + timerDelay (delay tm) \<le> fst te)
       | SetHasActive i b \<Rightarrow> isMounted w i
       | Unmount i \<Rightarrow> isMounted w i))"

fun wellTimed :: "(int \<times> event) list \<Rightarrow> world \<Rightarrow> bool" where
  "wellTimed [] w = True"
| "wellTimed (te # es) w = (canHappen te w \<and> wellTimed es (step te w))"

subsection \<open>Some histories\<close>

text \<open>
  Two taps on \<open>a\<close>, the second one pressed 30 ms before the release timer of the first
  one fires and released 10 ms after it; then a press on \<open>b\<close> that is held until its
  activation timer fires.
\<close>

definition tapTapPress :: "(int \<times> event) list" where
  "tapTapPress =
     [(0, Mount ''a'' defaultProps), (0, Mount ''b'' defaultProps),
      (1000, OnStart ''a'' (Some 1) 0 0), (1030, OnEnd ''a'' (Some 0)),
      (1600, OnStart ''a'' (Some 1) 0 0), (1630, Fire 2), (1640, OnEnd ''a'' (Some 0)),
      (1900, OnStart ''b'' (Some 1) 0 0), (1970, Fire 5)]"


text \<open>A tap on \<open>a\<close>, a second press 170 ms later, and the unmount 10 ms into that press.\<close>

definition tapPressUnmount :: "(int \<times> event) list" where
  "tapPressUnmount =
     [(0, Mount ''a'' defaultProps),
      (1000, OnStart ''a'' (Some 1) 0 0), (1030, OnEnd ''a'' (Some 0)),
      (1200, OnStart ''a'' (Some 1) 0 0), (1210, Unmount ''a'')]"

text \<open>
  Two gesture starts on \<open>a\<close> with no release between them (mouse events, which carry no
  \<^verbatim>\<open>touches\<close>: a second button goes down while the first is held).
\<close>

definition startStart :: "(int \<times> event) list" where
  "startStart =
     [(0, Mount ''a'' defaultProps),
      (1000, OnStart ''a'' None 0 0), (1010, OnStart ''a'' None 0 0)]"

text \<open>The same, followed by a move of 30 units along the x axis.\<close>

definition startStartMove :: "(int \<times> event) list" where
  "startStartMove = startStart @ [(1020, OnMove ''a'' 30 0)]"

text \<open>
  A finger goes down on \<open>a\<close>, a second one joins it, and both are lifted one after the
  other.
\<close>

definition twoFingers :: "(int \<times> event) list" where
  "twoFingers =
     [(0, Mount ''a'' defaultProps),
      (1000, OnStart ''a'' (Some 1) 0 0), (1020, OnStart ''a'' (Some 2) 0 0),
      (1040, OnEnd ''a'' (Some 1)), (1050, OnEnd ''a'' (Some 0))]"


text \<open>The same two fingers on \<open>a\<close>, and then a press on \<open>b\<close> that is held.\<close>

definition twoFingersPress :: "(int \<times> event) list" where
  "twoFingersPress =
     [(0, Mount ''a'' defaultProps), (0, Mount ''b'' defaultProps),
      (1000, OnStart ''a'' (Some 1) 0 0), (1020, OnStart ''a'' (Some 2) 0 0),
      (1040, OnEnd ''a'' (Some 1)), (1050, OnEnd ''a'' (Some 0)),
      (1200, OnStart ''b'' (Some 1) 0 0), (1270, Fire 3)]"

text \<open>A press on \<open>a\<close>.\<close>

definition press :: "(int \<times> event) list" where
  "press = [(0, Mount ''a'' defaultProps), (1000, OnStart ''a'' (Some 1) 0 0)]"

text \<open>A press on \<open>a\<close> that is held until the activation timer fires.\<close>

definition pressHold :: "(int \<times> event) list" where
  "pressHold = press @ [(1070, Fire 1)]"

text \<open>The same, released 30 ms after the activation.\<close>

definition pressHoldRelease :: "(int \<times> event) list" where
  "pressHoldRelease = pressHold @ [(1100, OnEnd ''a'' (Some 0))]"

text \<open>A press that is held until the activation, on an instance with an effect delay of 50 ms.\<close>

definition pressHold50 :: "(int \<times> event) list" where
  "pressHold50 =
     [(0, Mount ''a'' (defaultProps\<lparr>p_activeEffectDelay := 50\<rparr>)),
      (1000, OnStart ''a'' (Some 1) 0 0), (1070, Fire 1)]"

text \<open>
  A press on \<open>a\<close> during which \<^verbatim>\<open>state.hasActive\<close> is switched off (a nested instance is
  entered), held until the activation timer fires.
\<close>

definition pressDisabledHold :: "(int \<times> event) list" where
  "pressDisabledHold = press @ [(1040, SetHasActive ''a'' False), (1070, Fire 1)]"


text \<open>
  A press on \<open>a\<close> that is held until the activation and released 30 ms later, and then a
  press on \<open>b\<close> that is held until its activation timer fires.
\<close>

definition releaseThenOther :: "(int \<times> event) list" where
  "releaseThenOther =
     [(0, Mount ''a'' defaultProps), (0, Mount ''b'' defaultProps),
      (1000, OnStart ''a'' (Some 1) 0 0), (1070, Fire 1), (1100, OnEnd ''a'' (Some 0)),
      (1200, OnStart ''b'' (Some 1) 0 0), (1270, Fire 3)]"

text \<open>A tap on \<open>b\<close> and then a press on \<open>a\<close>.\<close>

definition tapPress :: "(int \<times> event) list" where
  "tapPress =
     [(0, Mount ''a'' defaultProps), (0, Mount ''b'' defaultProps),
      (1000, OnStart ''b'' (Some 1) 0 0), (1030, OnEnd ''b'' (Some 0)),
      (1100, OnStart ''a'' (Some 1) 0 0)]"


subsection \<open>The branches of onEnd, named\<close>

text \<open>
  What \<open>stop\<close> does to the state of its instance, and the two branches of \<open>onEnd\<close> that
  schedule the release: \<open>keepLonger\<close> (the instance is active for less than 100 ms) and
  \<open>shortTap\<close> (the instance is not active and not sliding). The lemmas \<open>stop_instances\<close>
  and \<open>onEnd_eq\<close> below relate them to the methods.
\<close>

definition deactivated :: "Tappable \<Rightarrow> Tappable" where
  "deactivated t = (if mounted t \<and> active t then t\<lparr>active := False, ts := None\<rparr> else t)"

definition keepLonger :: "string \<Rightarrow> Tappable \<Rightarrow> world \<Rightarrow> world" where
  "keepLonger i t w =
     (let w1 = snd (setTimeout (Stop i) (activeEffectDelay t - clock w + tsValue t) w)
      in case getStorage i w of
           None \<Rightarrow> w1
         | Some item \<Rightarrow>
             w1\<lparr>storage := AList.update i (item\<lparr>timeout := Some (nextHandle w)\<rparr>) (storage w)\<rparr>)"

definition shortTap :: "string \<Rightarrow> Tappable \<Rightarrow> world \<Rightarrow> world" where
  "shortTap i t w =
     (let w1 = start i w;
          w2 = snd (setTimeout (Stop i) (activeEffectDelay t) w1)
      in case getStorage i w1 of
           Some item \<Rightarrow>
             (clearTimeout (Some (activeTimeout item)) w2)
               \<lparr>storage := AList.update i (item\<lparr>timeout := Some (nextHandle w1)\<rparr>) (storage w1)\<rparr>
         | None \<Rightarrow> setMember i (\<lambda>s. s\<lparr>this_timeout := Some (nextHandle w1)\<rparr>) w2)"

subsection \<open>Invariants of the handles\<close>

text \<open>
  Every handle in the timer table or in storage was handed out before, and the release
  handle of an item is younger than its activation handle.
\<close>

definition handlesBelow :: "world \<Rightarrow> bool" where
  "handlesBelow w =
     ((\<forall>h tm. map_of (timers w) h = Some tm \<longrightarrow> h < nextHandle w) \<and>
      (\<forall>k item. getStorage k w = Some item \<longrightarrow>
         activeTimeout item < nextHandle w \<and>
         (\<forall>r. timeout item = Some r \<longrightarrow> activeTimeout item < r \<and> r < nextHandle w)))"

subsection \<open>Invariants of the entries\<close>

text \<open>
  The handles an instance holds: the two of its entry in storage, and \<open>wavesTimeout\<close>.
  \<open>heldOwned\<close>: a held handle was handed out before, and a timer pending under it calls
  back into its holder. \<open>live\<close>: an entry belongs to a mounted instance with activation
  enabled that is active or has its activation timer pending under the entry's handle.
\<close>

definition waves :: "world \<Rightarrow> string \<Rightarrow> nat option" where
  "waves w k = (case instances w k of None \<Rightarrow> None | Some t \<Rightarrow> wavesTimeout t)"

definition holds :: "world \<Rightarrow> string \<Rightarrow> nat \<Rightarrow> bool" where
  "holds w k h =
     ((case getStorage k w of
         None \<Rightarrow> False
       | Some item \<Rightarrow> activeTimeout item = h \<or> timeout item = Some h) \<or>
      waves w k = Some h)"


definition live :: "world \<Rightarrow> string \<Rightarrow> bool" where
  "live w k =
     (case getStorage k w of
        None \<Rightarrow> True
      | Some item \<Rightarrow>
          (case instances w k of
             None \<Rightarrow> False
           | Some t \<Rightarrow>
               mounted t \<and>
               (active t \<or>
                (hasActive t \<and>
                 (case map_of (timers w) (activeTimeout item) of
                    None \<Rightarrow> False
                  | Some tm \<Rightarrow> callback tm = Start k)))))"



text \<open>The state update at the beginning of \<open>start\<close> (lemma \<open>start_eq\<close>).\<close>

definition activate :: "string \<Rightarrow> world \<Rightarrow> world" where
  "activate i w =
     (case instances w i of
        None \<Rightarrow> w
      | Some t \<Rightarrow>
          if \<not> active t \<and> hasActive t
          then setState i (\<lambda>s. s\<lparr>active := True, ts := Some (clock w)\<rparr>) w
          else w)"

text \<open>
  Histories, from a world on, in which \<^verbatim>\<open>state.hasActive\<close> is never switched off on an
  instance that has an entry in storage and is not active. Every other step is allowed,
  also the other writes of \<^verbatim>\<open>state.hasActive\<close>.
\<close>

definition switchAllowed :: "event \<Rightarrow> world \<Rightarrow> bool" where
  "switchAllowed e w =
     (case e of
        SetHasActive i b \<Rightarrow> b \<or> \<not> hasEntry w i \<or> isActive w i
      | _ \<Rightarrow> True)"

fun capabilityKept :: "(int \<times> event) list \<Rightarrow> world \<Rightarrow> bool" where
  "capabilityKept [] w = True"
| "capabilityKept (te # es) w = (switchAllowed (snd te) w \<and> capabilityKept es (step te w))"

subsection \<open>The keyboard\<close>

text \<open>
  \<^verbatim>\<open>onKeyDown\<close> and the part of \<^verbatim>\<open>render\<close> that installs it. An event carries the key
  and the role of the element it is on; what a handler does is the list of its calls.
\<close>

datatype keyName = Enter | Space | OtherKey

record KeyboardEvent =
  key :: keyName
  targetRole :: string

datatype effect = PreventDefault | ContainerClick | CallerOnKeyDown

text \<open>
  Modelled from the spec: \<^verbatim>\<open>shouldTriggerClickOnEnterOrSpace\<close> is imported from
  \<^verbatim>\<open>lib/accessibility\<close>, which is not among the sources. The spec (4.3) says that Enter
  on both roles and Space on the button role only synthesize a click.
\<close>

definition shouldTriggerClickOnEnterOrSpace :: "KeyboardEvent \<Rightarrow> bool" where
  "shouldTriggerClickOnEnterOrSpace e =
     ((key e = Enter \<and> (targetRole e = ''button'' \<or> targetRole e = ''link'')) \<or>
      (key e = Space \<and> targetRole e = ''button''))"

text \<open>The first argument: \<^verbatim>\<open>typeof this.props.onKeyDown === 'function'\<close>.\<close>

definition onKeyDown :: "bool \<Rightarrow> KeyboardEvent \<Rightarrow> effect list" where
  "onKeyDown callerHandler e =
     (if shouldTriggerClickOnEnterOrSpace e then [PreventDefault, ContainerClick] else []) @
     (if callerHandler then [CallerOnKeyDown] else [])"

text \<open>
  The props that \<^verbatim>\<open>render\<close> reads for the keyboard: \<open>k_disabled\<close> and \<open>k_contentEditable\<close>
  say whether \<^verbatim>\<open>restProps.disabled\<close> and \<^verbatim>\<open>restProps.contentEditable\<close> are truthy (the
  string \<^verbatim>\<open>"false"\<close> is), \<open>k_onKeyDown\<close> whether the caller gave a handler.
\<close>

record KeyProps =
  k_Component :: string
  k_disabled :: bool
  k_contentEditable :: bool
  k_role :: string
  k_onKeyDown :: bool

definition nativeComponents :: "string list" where
  "nativeComponents = [''a'', ''button'', ''input'', ''textarea'', ''label'']"

text \<open>
  Which handler the root element gets for keydown: \<^verbatim>\<open>props.onKeyDown = this.onKeyDown\<close>
  overrides the caller's handler, which is otherwise passed on with \<^verbatim>\<open>restProps\<close>.
\<close>

datatype keyHandler = TappableOnKeyDown | CallerHandler | NoHandler

definition renderOnKeyDown :: "KeyProps \<Rightarrow> keyHandler" where
  "renderOnKeyDown p =
     (if \<not> k_disabled p \<and> k_Component p \<notin> set nativeComponents \<and> \<not> k_contentEditable p \<and>
         (k_role p = ''button'' \<or> k_role p = ''link'')
      then TappableOnKeyDown
      else if k_onKeyDown p then CallerHandler else NoHandler)"

definition keyDown :: "KeyProps \<Rightarrow> keyName \<Rightarrow> effect list" where
  "keyDown p k =
     (case renderOnKeyDown p of
        TappableOnKeyDown \<Rightarrow> onKeyDown (k_onKeyDown p) \<lparr>key = k, targetRole = k_role p\<rparr>
      | CallerHandler \<Rightarrow> [CallerOnKeyDown]
      | NoHandler \<Rightarrow> [])"

section \<open>Lemmas about the methods\<close>

subsection \<open>Frame lemmas\<close>

lemma clearTimeout_fields [simp]:
  "storage (clearTimeout h w) = storage w"
  "instances (clearTimeout h w) = instances w"
  "nextHandle (clearTimeout h w) = nextHandle w"
  "clock (clearTimeout h w) = clock w"
  by (simp_all add: clearTimeout_def split: option.splits)

lemma clearTimeout_timers:
  "map_of (timers (clearTimeout h w)) k =
     (if h = Some k then None else map_of (timers w) k)"
  by (auto simp: clearTimeout_def delete_conv' split: option.splits)

lemma clearTimeout_Some_timers [simp]:
  "timers (clearTimeout (Some k) w) = AList.delete k (timers w)"
  by (simp add: clearTimeout_def)

lemma clearTimeout_getStorage [simp]: "getStorage i (clearTimeout h w) = getStorage i w"
  by (simp add: getStorage_def)

lemma setState_fields [simp]:
  "storage (setState i f w) = storage w"
  "timers (setState i f w) = timers w"
  "nextHandle (setState i f w) = nextHandle w"
  "clock (setState i f w) = clock w"
  by (simp_all add: setState_def split: option.splits)

lemma setState_instances:
  "instances (setState i f w) j =
     (if j = i then map_option (\<lambda>t. if mounted t then f t else t) (instances w i)
      else instances w j)"
  by (simp add: setState_def split: option.splits)

lemma setState_getStorage [simp]: "getStorage j (setState i f w) = getStorage j w"
  by (simp add: getStorage_def)

lemma setMember_fields [simp]:
  "storage (setMember i f w) = storage w"
  "timers (setMember i f w) = timers w"
  "nextHandle (setMember i f w) = nextHandle w"
  "clock (setMember i f w) = clock w"
  by (simp_all add: setMember_def split: option.splits)

lemma setMember_instances:
  "instances (setMember i f w) j =
     (if j = i then map_option f (instances w i) else instances w j)"
  by (simp add: setMember_def split: option.splits)

lemma setMember_getStorage [simp]: "getStorage j (setMember i f w) = getStorage j w"
  by (simp add: getStorage_def)

lemma stop_storage [simp]: "storage (stop i w) = AList.delete i (storage w)"
  by (auto simp: stop_def Let_def getStorage_def map_of_eq_None_iff split: option.splits)

lemma stop_fields [simp]:
  "nextHandle (stop i w) = nextHandle w"
  "clock (stop i w) = clock w"
  by (simp_all add: stop_def Let_def split: option.splits)

lemma stop_timers:
  "timers (stop i w) =
     (case getStorage i w of
        None \<Rightarrow> timers w
      | Some item \<Rightarrow> AList.delete (activeTimeout item) (timers w))"
  by (simp add: stop_def Let_def split: option.splits)

lemma stop_instances:
  "instances (stop i w) j =
     (if j = i then map_option deactivated (instances w i) else instances w j)"
  by (auto simp: stop_def Let_def deactivated_def setState_instances split: option.splits)

lemma purgeOne_storage [simp]: "storage (purgeOne k w) = AList.delete k (storage w)"
  by (auto simp: purgeOne_def Let_def getStorage_def map_of_eq_None_iff delete_idem
      split: option.splits)

lemma purgeOne_fields [simp]:
  "nextHandle (purgeOne k w) = nextHandle w"
  "clock (purgeOne k w) = clock w"
  by (simp_all add: purgeOne_def Let_def split: option.splits)

lemma purgeOne_instances:
  "instances (purgeOne k w) j =
     (if j = k \<and> getStorage k w \<noteq> None then map_option deactivated (instances w k)
      else instances w j)"
  by (auto simp: purgeOne_def Let_def stop_instances split: option.splits)

lemma purgeOne_timers:
  "map_of (timers (purgeOne k w)) h =
     (case getStorage k w of
        None \<Rightarrow> map_of (timers w) h
      | Some item \<Rightarrow>
          if h = activeTimeout item \<or> timeout item = Some h then None
          else map_of (timers w) h)"
  by (auto simp: purgeOne_def Let_def stop_timers clearTimeout_timers delete_conv'
      split: option.splits)

lemma purgeOne_timers_subset: "set (timers (purgeOne k w)) \<subseteq> set (timers w)"
  by (auto simp: purgeOne_def Let_def stop_timers clearTimeout_def AList.delete_eq
      split: option.splits)


lemma purgeOne_getStorage:
  "getStorage j (purgeOne k w) = (if j = k then None else getStorage j w)"
  by (simp add: getStorage_def delete_conv')

lemma purge_storage:
  "storage (fold purgeOne ks w) = filter (\<lambda>p. fst p \<notin> set ks) (storage w)"
proof (induction ks arbitrary: w)
  case Nil
  show ?case by simp
next
  case (Cons k ks)
  show ?case
    by (simp add: Cons.IH AList.delete_eq) (rule filter_cong, auto)
qed

lemma purge_fields [simp]:
  "nextHandle (fold purgeOne ks w) = nextHandle w"
  "clock (fold purgeOne ks w) = clock w"
  by (induction ks arbitrary: w) simp_all

lemma purge_getStorage:
  "getStorage j (fold purgeOne ks w) = (if j \<in> set ks then None else getStorage j w)"
  by (induction ks arbitrary: w) (auto simp: purgeOne_getStorage)

lemma purge_instances:
  "instances (fold purgeOne ks w) j =
     (if j \<in> set ks \<and> getStorage j w \<noteq> None then map_option deactivated (instances w j)
      else instances w j)"
proof (induction ks arbitrary: w)
  case Nil
  show ?case by simp
next
  case (Cons k ks)
  show ?case
    by (auto simp: Cons.IH purgeOne_getStorage purgeOne_instances)
qed

lemma purge_timers:
  "map_of (timers (fold purgeOne ks w)) h =
     (if \<exists>k \<in> set ks. \<exists>item. getStorage k w = Some item \<and>
           (h = activeTimeout item \<or> timeout item = Some h)
      then None else map_of (timers w) h)"
proof (induction ks arbitrary: w)
  case Nil
  show ?case by simp
next
  case (Cons k ks)
  show ?case
    by (auto simp: Cons.IH purgeOne_getStorage purgeOne_timers split: option.splits)
qed

lemma purge_timers_subset: "set (timers (fold purgeOne ks w)) \<subseteq> set (timers w)"
proof (induction ks arbitrary: w)
  case Nil
  show ?case by simp
next
  case (Cons k ks)
  have "set (timers (fold purgeOne ks (purgeOne k w))) \<subseteq> set (timers (purgeOne k w))"
    by (rule Cons.IH)
  also have "\<dots> \<subseteq> set (timers w)"
    by (rule purgeOne_timers_subset)
  finally show ?case by simp
qed


lemma isActive_stop: "isActive (stop i w) i = False"
  by (simp add: isActive_def stop_instances deactivated_def split: option.splits)

lemma stop_timers_subset: "set (timers (stop i w)) \<subseteq> set (timers w)"
  by (auto simp: stop_timers AList.delete_eq split: option.splits)

lemma isActive_setMember_isSlide [simp]:
  "isActive (setMember i (\<lambda>s. s\<lparr>isSlide := b\<rparr>) w) j = isActive w j"
  by (simp add: isActive_def setMember_instances split: option.splits)

lemma isActive_clock [simp]: "isActive (w\<lparr>clock := c\<rparr>) j = isActive w j"
  by (simp add: isActive_def)

lemma isActive_storage [simp]: "isActive (w\<lparr>storage := c\<rparr>) j = isActive w j"
  by (simp add: isActive_def)

lemma isActive_timers [simp]: "isActive (w\<lparr>timers := c\<rparr>) j = isActive w j"
  by (simp add: isActive_def)

lemma isActive_nextHandle [simp]: "isActive (w\<lparr>nextHandle := c\<rparr>) j = isActive w j"
  by (simp add: isActive_def)



lemma deactivateAll_eq:
  "deactivateOtherInstances None w = fold purgeOne (map fst (storage w)) w"
  by (simp add: deactivateOtherInstances_def)

lemma getStorage_key: "getStorage k w = Some item \<Longrightarrow> k \<in> fst ` set (storage w)"
  by (auto simp: getStorage_def dest!: map_of_SomeD intro: rev_image_eqI)

lemma isActive_deactivated:
  "instances w' k = map_option deactivated (instances w k) \<Longrightarrow> isActive w' k = False"
  by (simp add: isActive_def deactivated_def split: option.splits)



lemma handlesBelow_shrink:
  assumes "handlesBelow w"
    and "nextHandle w \<le> nextHandle w'"
    and "\<And>h tm. map_of (timers w') h = Some tm \<Longrightarrow> map_of (timers w) h \<noteq> None"
    and "\<And>k item. getStorage k w' = Some item \<Longrightarrow> getStorage k w = Some item"
  shows "handlesBelow w'"
  using assms unfolding handlesBelow_def
  by (metis (no_types, lifting) less_le_trans option.exhaust)

lemma map_of_delete_Some:
  "map_of (AList.delete k al) h = Some v \<Longrightarrow> map_of al h = Some v"
  by (simp add: delete_conv' split: if_splits)

lemma handlesBelow_clearTimeout: "handlesBelow w \<Longrightarrow> handlesBelow (clearTimeout h w)"
  by (erule handlesBelow_shrink) (auto simp: clearTimeout_timers split: if_splits)

lemma handlesBelow_setState: "handlesBelow w \<Longrightarrow> handlesBelow (setState i f w)"
  by (erule handlesBelow_shrink) auto

lemma handlesBelow_setMember: "handlesBelow w \<Longrightarrow> handlesBelow (setMember i f w)"
  by (erule handlesBelow_shrink) auto

lemma handlesBelow_clock: "handlesBelow w \<Longrightarrow> handlesBelow (w\<lparr>clock := c\<rparr>)"
  by (erule handlesBelow_shrink) (auto simp: getStorage_def)

lemma handlesBelow_instances: "handlesBelow w \<Longrightarrow> handlesBelow (w\<lparr>instances := c\<rparr>)"
  by (erule handlesBelow_shrink) (auto simp: getStorage_def)

lemma stop_getStorage: "getStorage j (stop i w) = (if j = i then None else getStorage j w)"
  by (simp add: getStorage_def delete_conv')

lemma handlesBelow_stop: "handlesBelow w \<Longrightarrow> handlesBelow (stop i w)"
  by (erule handlesBelow_shrink)
    (auto simp: stop_timers stop_getStorage delete_conv' split: option.splits if_splits)

lemma handlesBelow_purge: "handlesBelow w \<Longrightarrow> handlesBelow (fold purgeOne ks w)"
  by (erule handlesBelow_shrink)
    (auto simp: purge_timers purge_getStorage split: if_splits)

lemma handlesBelow_deactivate:
  "handlesBelow w \<Longrightarrow> handlesBelow (deactivateOtherInstances ex w)"
  by (simp add: deactivateOtherInstances_def handlesBelow_purge)

lemma handlesBelow_start: "handlesBelow w \<Longrightarrow> handlesBelow (start i w)"
  by (auto simp: start_def intro!: handlesBelow_deactivate handlesBelow_setState
      split: option.splits)

lemma handlesBelow_waveExpire: "handlesBelow w \<Longrightarrow> handlesBelow (waveExpire i k w)"
  by (simp add: waveExpire_def handlesBelow_setState)

lemma handlesBelow_setTimeout:
  "handlesBelow w \<Longrightarrow> handlesBelow (snd (setTimeout cb d w))"
  unfolding handlesBelow_def setTimeout_def
  by (auto simp: getStorage_def less_Suc_eq split: if_splits)

lemma setTimeout_fst [simp]: "fst (setTimeout cb d w) = nextHandle w"
  by (simp add: setTimeout_def)

lemma setTimeout_fields [simp]:
  "storage (snd (setTimeout cb d w)) = storage w"
  "instances (snd (setTimeout cb d w)) = instances w"
  "nextHandle (snd (setTimeout cb d w)) = Suc (nextHandle w)"
  "clock (snd (setTimeout cb d w)) = clock w"
  "timers (snd (setTimeout cb d w)) =
     timers w @ [(nextHandle w, \<lparr>callback = cb, delay = d, setAt = clock w\<rparr>)]"
  by (simp_all add: setTimeout_def)

lemma setTimeout_getStorage [simp]: "getStorage i (snd (setTimeout cb d w)) = getStorage i w"
  by (simp add: getStorage_def)

lemma handlesBelow_register:
  assumes "handlesBelow w" and "a < nextHandle w"
  shows "handlesBelow
           (w\<lparr>storage := AList.update i \<lparr>activeTimeout = a, timeout = None\<rparr> (storage w)\<rparr>)"
  using assms unfolding handlesBelow_def
  by (auto simp: getStorage_def update_conv' split: if_splits)

lemma handlesBelow_release:
  assumes "handlesBelow w" and "getStorage i w = Some item"
    and "activeTimeout item < r" and "r < nextHandle w"
  shows "handlesBelow (w\<lparr>storage := AList.update i (item\<lparr>timeout := Some r\<rparr>) (storage w)\<rparr>)"
  using assms unfolding handlesBelow_def
  by (auto simp: getStorage_def update_conv' split: if_splits)

lemma handlesBelow_unregister:
  "handlesBelow w \<Longrightarrow> handlesBelow (w\<lparr>storage := AList.delete i (storage w)\<rparr>)"
  by (erule handlesBelow_shrink) (auto simp: getStorage_def delete_conv' split: if_splits)

lemma handlesBelow_untimer:
  "handlesBelow w \<Longrightarrow> handlesBelow (w\<lparr>timers := AList.delete h (timers w)\<rparr>)"
  by (erule handlesBelow_shrink) (auto simp: getStorage_def delete_conv' split: if_splits)


lemma onDown_eq:
  "onDown i x y w =
     (case instances w i of
        None \<Rightarrow> w
      | Some t \<Rightarrow>
          if android t then
            setMember i (\<lambda>s. s\<lparr>wavesTimeout := Some (nextHandle w)\<rparr>)
              (snd (setTimeout (WaveExpire i (clock w)) 225
                 (setState i (\<lambda>s. s\<lparr>clicks := AList.update (clock w) (x, y) (clicks s)\<rparr>) w)))
          else w)"
  by (simp add: onDown_def Let_def setTimeout_def split: option.splits)

lemma handlesBelow_onDown: "handlesBelow w \<Longrightarrow> handlesBelow (onDown i x y w)"
  by (simp add: onDown_eq handlesBelow_setMember handlesBelow_setTimeout handlesBelow_setState
      split: option.splits)

lemma onDown_fields [simp]:
  "storage (onDown i x y w) = storage w"
  "clock (onDown i x y w) = clock w"
  by (simp_all add: onDown_eq split: option.splits)

lemma onStart_single_eq:
  "onStart i touches x y w =
     (case instances w i of
        None \<Rightarrow> w
      | Some t \<Rightarrow>
          if hasActive t then
            (if (case touches of None \<Rightarrow> False | Some n \<Rightarrow> 1 < n)
             then deactivateOtherInstances None w
             else
               (let w1 = (if android t then onDown i x y w else w);
                    w2 = snd (setTimeout (Start i) ACTIVE_DELAY w1)
                in w2\<lparr>storage :=
                       AList.update i \<lparr>activeTimeout = nextHandle w1, timeout = None\<rparr>
                         (storage w2)\<rparr>))
          else w)"
  by (simp add: onStart_def Let_def setTimeout_def split: option.splits)

lemma handlesBelow_onStart:
  assumes hb: "handlesBelow w"
  shows "handlesBelow (onStart i touches x y w)"
proof -
  have reg: "handlesBelow
      ((snd (setTimeout (Start i) ACTIVE_DELAY v))
         \<lparr>storage := AList.update i \<lparr>activeTimeout = nextHandle v, timeout = None\<rparr>
            (storage (snd (setTimeout (Start i) ACTIVE_DELAY v)))\<rparr>)"
    if "handlesBelow v" for v
    by (rule handlesBelow_register) (simp_all add: handlesBelow_setTimeout that)
  show ?thesis
    using hb reg [of w] reg [of "onDown i x y w"]
    by (simp add: onStart_single_eq Let_def handlesBelow_deactivate handlesBelow_onDown
        split: option.splits)
qed

lemma handlesBelow_onMove: "handlesBelow w \<Longrightarrow> handlesBelow (onMove i sx sy w)"
  by (simp add: onMove_def handlesBelow_stop handlesBelow_setMember)

lemma handlesBelow_componentWillUnmount:
  "handlesBelow w \<Longrightarrow> handlesBelow (componentWillUnmount i w)"
  by (erule handlesBelow_shrink)
    (auto simp: componentWillUnmount_def Let_def clearTimeout_timers getStorage_def
      delete_conv' split: option.splits if_splits)

lemma handlesBelow_fire: "handlesBelow w \<Longrightarrow> handlesBelow (fire h w)"
proof -
  assume hb: "handlesBelow w"
  have "handlesBelow (runCallback cb (w\<lparr>timers := AList.delete h (timers w)\<rparr>))" for cb
    using handlesBelow_untimer [OF hb, of h]
    by (cases cb) (simp_all add: handlesBelow_start handlesBelow_stop handlesBelow_waveExpire)
  then show ?thesis
    using hb by (simp add: fire_def split: option.splits)
qed


lemma onEnd_eq:
  "onEnd i touches w =
     (if (case touches of None \<Rightarrow> False | Some n \<Rightarrow> 0 < n)
      then stop i (setMember i (\<lambda>s. s\<lparr>isSlide := False\<rparr>) w)
      else
        (case instances w i of
           None \<Rightarrow> w
         | Some t \<Rightarrow>
             setMember i (\<lambda>s. s\<lparr>isSlide := False\<rparr>)
               (if active t then
                  (if 100 \<le> clock w - tsValue t then stop i w else keepLonger i t w)
                else if \<not> isSlide t then shortTap i t w
                else w)))"
  by (simp add: onEnd_def Let_def keepLonger_def shortTap_def setTimeout_def getStorage_def
      split: option.splits)

lemma handlesBelow_keepLonger:
  assumes hb: "handlesBelow w"
  shows "handlesBelow (keepLonger i t w)"
proof (cases "getStorage i w")
  case None
  then show ?thesis
    by (simp add: keepLonger_def handlesBelow_setTimeout hb)
next
  case (Some item)
  let ?w1 = "snd (setTimeout (Stop i) (activeEffectDelay t - clock w + tsValue t) w)"
  have a: "activeTimeout item < nextHandle w"
    using hb Some by (auto simp: handlesBelow_def)
  have "handlesBelow
      (?w1\<lparr>storage := AList.update i (item\<lparr>timeout := Some (nextHandle w)\<rparr>) (storage ?w1)\<rparr>)"
    by (rule handlesBelow_release) (simp_all add: handlesBelow_setTimeout hb Some a)
  then show ?thesis
    by (simp add: keepLonger_def Some)
qed

lemma start_nextHandle [simp]: "nextHandle (start i w) = nextHandle w"
  by (simp add: start_def deactivateOtherInstances_def split: option.splits)

lemma handlesBelow_shortTap:
  assumes hb: "handlesBelow w"
  shows "handlesBelow (shortTap i t w)"
proof -
  let ?w1 = "start i w"
  let ?w2 = "snd (setTimeout (Stop i) (activeEffectDelay t) ?w1)"
  have hb1: "handlesBelow ?w1"
    by (rule handlesBelow_start [OF hb])
  have hb2: "handlesBelow ?w2"
    by (rule handlesBelow_setTimeout [OF hb1])
  show ?thesis
  proof (cases "getStorage i ?w1")
    case None
    then show ?thesis
      by (simp add: shortTap_def handlesBelow_setMember hb2)
  next
    case (Some item)
    have a: "activeTimeout item < nextHandle ?w1"
      using hb1 Some by (auto simp: handlesBelow_def)
    let ?w3 = "clearTimeout (Some (activeTimeout item)) ?w2"
    have "handlesBelow
        (?w3\<lparr>storage :=
               AList.update i (item\<lparr>timeout := Some (nextHandle ?w1)\<rparr>) (storage ?w3)\<rparr>)"
      using a by (intro handlesBelow_release handlesBelow_clearTimeout hb2) (simp_all add: Some)
    then show ?thesis
      by (simp add: shortTap_def Let_def Some)
  qed
qed

lemma handlesBelow_onEnd: "handlesBelow w \<Longrightarrow> handlesBelow (onEnd i touches w)"
  by (simp add: onEnd_eq handlesBelow_stop handlesBelow_setMember handlesBelow_keepLonger
      handlesBelow_shortTap split: option.splits)

lemma handlesBelow_step: "handlesBelow w \<Longrightarrow> handlesBelow (step te w)"
proof -
  assume hb: "handlesBelow w"
  have hb0: "handlesBelow (w\<lparr>clock := fst te\<rparr>)"
    by (rule handlesBelow_clock [OF hb])
  have "handlesBelow (dispatch e v)" if "handlesBelow v" for e v
    using that
    by (cases e)
      (simp_all add: handlesBelow_onStart handlesBelow_onMove handlesBelow_onEnd
        handlesBelow_fire handlesBelow_setState handlesBelow_setMember
        handlesBelow_componentWillUnmount handlesBelow_instances setHasActive_def
        split: option.splits)
  then show ?thesis
    using hb0 by (simp add: step_def)
qed

lemma handlesBelow_init: "handlesBelow init"
  by (simp add: handlesBelow_def init_def getStorage_def)

lemma handlesBelow_fold: "handlesBelow w \<Longrightarrow> handlesBelow (fold step es w)"
  by (induction es arbitrary: w) (simp_all add: handlesBelow_step)

lemma handlesBelow_run: "handlesBelow (run es)"
  by (simp add: run_def handlesBelow_fold handlesBelow_init)


lemma map_of_fresh:
  "handlesBelow w \<Longrightarrow> map_of (timers w) (nextHandle w) = None"
  by (cases "map_of (timers w) (nextHandle w)") (auto simp: handlesBelow_def)



lemma start_clock [simp]: "clock (start i w) = clock w"
  by (simp add: start_def deactivateOtherInstances_def split: option.splits)



subsection \<open>The entries stay live\<close>







lemma waves_frame [simp]:
  "waves (clearTimeout h w) k = waves w k"
  "waves (w\<lparr>storage := s\<rparr>) k = waves w k"
  "waves (w\<lparr>timers := tt\<rparr>) k = waves w k"
  "waves (w\<lparr>clock := c\<rparr>) k = waves w k"
  "waves (w\<lparr>nextHandle := n\<rparr>) k = waves w k"
  "waves (snd (setTimeout cb d w)) k = waves w k"
  by (simp_all add: waves_def)

lemma waves_stop [simp]: "waves (stop i w) k = waves w k"
  by (simp add: waves_def stop_instances deactivated_def split: option.splits)

lemma waves_purge [simp]: "waves (fold purgeOne ks w) k = waves w k"
  by (simp add: waves_def purge_instances deactivated_def split: option.splits)

lemma holds_key: "holds w j h \<Longrightarrow> getStorage j w = None \<Longrightarrow> waves w j = Some h"
  by (simp add: holds_def)


















lemma map_of_snoc_other: "h \<noteq> n \<Longrightarrow> map_of (xs @ [(n, u)]) h = map_of xs h"
  by (simp add: map_add_def split: option.splits)

lemma map_of_snoc_new: "map_of xs n = None \<Longrightarrow> map_of (xs @ [(n, u)]) n = Some u"
  by (simp add: map_add_def)






































lemma unmount_fields [simp]:
  "instances (componentWillUnmount i w) = instances w"
  "nextHandle (componentWillUnmount i w) = nextHandle w"
  by (simp_all add: componentWillUnmount_def Let_def split: option.splits)





lemma activate_fields [simp]:
  "storage (activate i w) = storage w"
  "timers (activate i w) = timers w"
  "nextHandle (activate i w) = nextHandle w"
  by (simp_all add: activate_def split: option.splits)

lemma activate_getStorage [simp]: "getStorage k (activate i w) = getStorage k w"
  by (simp add: getStorage_def)

lemma activate_instances:
  "instances (activate i w) k =
     (if k = i
      then map_option (\<lambda>t. if mounted t \<and> \<not> active t \<and> hasActive t
                            then t\<lparr>active := True, ts := Some (clock w)\<rparr> else t)
             (instances w i)
      else instances w k)"
  by (auto simp: activate_def setState_instances split: option.splits)

lemma activate_waves [simp]: "waves (activate i w) k = waves w k"
  by (auto simp: waves_def activate_instances split: option.splits)









lemma switchAllowed_clock [simp]: "switchAllowed e (w\<lparr>clock := c\<rparr>) = switchAllowed e w"
  by (simp add: switchAllowed_def hasEntry_def isActive_def getStorage_def split: event.splits)





lemma keepLonger_timers:
  "timers (keepLonger i t w) =
     timers w @
       [(nextHandle w,
         \<lparr>callback = Stop i, delay = activeEffectDelay t - clock w + tsValue t,
          setAt = clock w\<rparr>)]"
  by (simp add: keepLonger_def Let_def split: option.splits)

lemma keepLonger_fields [simp]:
  "instances (keepLonger i t w) = instances w"
  "clock (keepLonger i t w) = clock w"
  by (simp_all add: keepLonger_def Let_def split: option.splits)

subsection \<open>When a timer is due\<close>

lemma timerDelay_nonneg: "0 \<le> timerDelay d"
  by (simp add: timerDelay_def)

lemma timerDelay_id: "0 \<le> d \<Longrightarrow> d \<le> 2147483647 \<Longrightarrow> timerDelay d = d"
  by (simp add: timerDelay_def)

lemma timerDelay_negative: "- 2147483648 \<le> d \<Longrightarrow> d \<le> 0 \<Longrightarrow> timerDelay d = 0"
proof -
  assume "- 2147483648 \<le> d" "d \<le> 0"
  then have "(d + 2147483648) mod 4294967296 = d + 2147483648"
    by simp
  then show ?thesis
    using \<open>d \<le> 0\<close> by (simp add: timerDelay_def)
qed

text \<open>A timer set in the current step can fire from the end of its delay on.\<close>

lemma canHappen_new_timer:
  assumes "map_of (timers w) h = Some tm" and "setAt tm = clock w"
  shows "canHappen (t', Fire h) w = (clock w + timerDelay (delay tm) \<le> t')"
  using assms timerDelay_nonneg [of "delay tm"] by (auto simp: canHappen_def)

text \<open>A timer with the callback \<open>stop\<close> leaves its instance inactive.\<close>

lemma fire_stop_inactive:
  assumes "map_of (timers w) h = Some tm" and "callback tm = Stop i"
  shows "isActive (step (t', Fire h) w) i = False"
  using assms by (simp add: step_def fire_def isActive_stop)

section \<open>The claims\<close>

text \<open>
  Claim C1: at most one instance is active at any observed instant. The code purges the
  instances it finds in \<open>storage\<close>, and an instance can be active without an entry there:
  after \<open>tapTapPress\<close>, \<open>a\<close> and \<open>b\<close> are both active.
\<close>

theorem two_instances_active:
  "wellTimed tapTapPress init \<and>
   isActive (run tapTapPress) ''a'' \<and> isActive (run tapTapPress) ''b''"
  by code_simp

text \<open>
  The same happens without a second start on \<open>a\<close>: after two fingers the release of the
  last one activates \<open>a\<close> without an entry, and the press on \<open>b\<close> does not reach it.
\<close>

lemma two_active_after_two_fingers:
  "wellTimed twoFingersPress init \<and>
   isActive (run twoFingersPress) ''a'' \<and> isActive (run twoFingersPress) ''b'' \<and>
   map fst (storage (run twoFingersPress)) = [''b'']"
  by code_simp

text \<open>
  Claim C3: componentWillUnmount leaves no timer of the instance scheduled. After
  \<open>tapPressUnmount\<close> the instance is unmounted and has no entry, and the release timer of
  its first tap (handle 2, callback \<open>Stop\<close>) is still in the timer table: the second start
  replaced the entry that held it.
\<close>

theorem unmount_leaves_release_timer:
  "wellTimed tapPressUnmount init \<and>
   isMounted (run tapPressUnmount) ''a'' = False \<and>
   hasEntry (run tapPressUnmount) ''a'' = False \<and>
   timersOf (run tapPressUnmount) ''a'' =
     [(2, \<lparr>callback = Stop ''a'', delay = 600, setAt = 1030\<rparr>)]"
  by code_simp

text \<open>
  Claim C6: after a move of more than 20 units the instance is inactive, marked as sliding,
  and has no activation timer left. After \<open>startStartMove\<close> the first start's activation
  timer (handle 1) is still scheduled, and when it fires 50 ms later the instance becomes
  active while it is sliding.
\<close>

theorem move_leaves_activation_timer:
  "wellTimed (startStartMove @ [(1070, Fire 1)]) init \<and>
   isActive (run startStartMove) ''a'' = False \<and>
   map_option isSlide (instances (run startStartMove) ''a'') = Some True \<and>
   pendingActivation (run startStartMove) ''a'' \<and>
   timersOf (run startStartMove) ''a'' =
     [(1, \<lparr>callback = Start ''a'', delay = 70, setAt = 1000\<rparr>)] \<and>
   isActive (run (startStartMove @ [(1070, Fire 1)])) ''a'' \<and>
   map_option isSlide (instances (run (startStartMove @ [(1070, Fire 1)])) ''a'') = Some True"
  by code_simp

text \<open>
  Claim C8: after two starts on one instance storage holds one entry for it and no timer of
  the first registration is left. After \<open>startStart\<close> storage holds the one entry, with the
  second timer's handle, and both activation timers are scheduled.
\<close>

theorem second_start_keeps_first_timer:
  "wellTimed startStart init \<and>
   storage (run startStart) = [(''a'', \<lparr>activeTimeout = 2, timeout = None\<rparr>)] \<and>
   timersOf (run startStart) ''a'' =
     [(1, \<lparr>callback = Start ''a'', delay = 70, setAt = 1000\<rparr>),
      (2, \<lparr>callback = Start ''a'', delay = 70, setAt = 1010\<rparr>)]"
  by code_simp




text \<open>
  When \<^verbatim>\<open>state.hasActive\<close> is switched off while the activation is pending, the entry can
  outlive both: after \<open>pressDisabledHold\<close> the activation timer has fired without
  activating, and the entry is still there.
\<close>

lemma stale_entry_after_capability_change:
  "wellTimed pressDisabledHold init \<and>
   capabilityKept pressDisabledHold init = False \<and>
   hasEntry (run pressDisabledHold) ''a'' \<and>
   isActive (run pressDisabledHold) ''a'' = False \<and>
   pendingActivation (run pressDisabledHold) ''a'' = False"
  by code_simp

text \<open>
  Claim C4, as stated: when an active instance is released less than 100 ms after its
  activation, deactivation is scheduled to fire exactly \<open>activeEffectDelay\<close> minus the
  elapsed time after the release, so that the total visible duration equals the configured
  effect delay. With \<open>activeEffectDelay = 50\<close>, activated at 1070 ms and released at
  1150 ms, the instance has been active for 80 ms and stays active; \<open>stop\<close> is scheduled
  with the delay -30, and the time 1120 ms at which the effect delay would end has passed.
\<close>

theorem late_release_outlasts_delay:
  "wellTimed (pressHold50 @ [(1150, OnEnd ''a'' (Some 0))]) init \<and>
   map_option ts (instances (run pressHold50) ''a'') = Some (Some 1070) \<and>
   map_option activeEffectDelay (instances (run pressHold50) ''a'') = Some 50 \<and>
   isActive (step (1150, OnEnd ''a'' (Some 0)) (run pressHold50)) ''a'' \<and>
   timers (step (1150, OnEnd ''a'' (Some 0)) (run pressHold50)) =
     [(2, \<lparr>callback = Stop ''a'', delay = - 30, setAt = 1150\<rparr>)] \<and>
   canHappen (1120, Fire 2) (step (1150, OnEnd ''a'' (Some 0)) (run pressHold50)) = False"
  by code_simp

text \<open>
  With the default props the visible duration is not the effect delay either, whenever
  another step deactivates the instance before the scheduled timer is due. After
  \<open>releaseThenOther\<close> the instance \<open>a\<close>, activated at 1070 ms and released at 1100 ms, is
  inactive at 1270 ms, 200 ms after its activation: the activation of \<open>b\<close> has purged its
  entry, and the timer scheduled at the release (handle 2) has left the table.
\<close>

lemma other_start_ends_effect_early:
  "wellTimed releaseThenOther init \<and>
   isActive (run (take 5 releaseThenOther)) ''a'' \<and>
   timers (run (take 5 releaseThenOther)) =
     [(2, \<lparr>callback = Stop ''a'', delay = 570, setAt = 1100\<rparr>)] \<and>
   isActive (run releaseThenOther) ''a'' = False \<and>
   isActive (run releaseThenOther) ''b'' \<and>
   timers (run releaseThenOther) = []"
  by code_simp

text \<open>
  Claim C4, amended: in every state the code reaches, a release with no contact left on
  an active instance. When the instance has been active for 100 ms or more it is inactive
  after the step and no timer is added. When it has been active for less, it stays active
  and one timer is added to the table: its callback is \<open>stop\<close> of the instance and it is
  set at the release with the delay \<open>activeEffectDelay\<close> minus the elapsed time. Fired as
  the next step, this timer leaves the instance inactive, and it can fire from the release
  time plus \<open>timerDelay\<close> of that delay on; when the delay is between 0 and \<open>2 ^ 31 - 1\<close>,
  that is exactly \<open>activeEffectDelay\<close> after the activation. How long the instance stays
  active when other steps come between the release and the timer is not stated.
\<close>

theorem release_of_active_instance:
  assumes inst: "instances (run es) i = Some t"
    and live: "mounted t" "\<not> disabled t"
    and act: "active t"
    and touches: "touches = None \<or> touches = Some 0"
  shows
    "(100 \<le> now - tsValue t \<longrightarrow>
        isActive (step (now, OnEnd i touches) (run es)) i = False \<and>
        set (timers (step (now, OnEnd i touches) (run es))) \<subseteq> set (timers (run es))) \<and>
     (now - tsValue t < 100 \<longrightarrow>
        isActive (step (now, OnEnd i touches) (run es)) i \<and>
        timers (step (now, OnEnd i touches) (run es)) =
          timers (run es) @
            [(nextHandle (run es),
              \<lparr>callback = Stop i,
               delay = activeEffectDelay t - (now - tsValue t),
               setAt = now\<rparr>)] \<and>
        (\<forall>t'. isActive
           (step (t', Fire (nextHandle (run es))) (step (now, OnEnd i touches) (run es))) i =
           False) \<and>
        (\<forall>t'. canHappen (t', Fire (nextHandle (run es)))
               (step (now, OnEnd i touches) (run es)) =
             (now + timerDelay (activeEffectDelay t - (now - tsValue t)) \<le> t')) \<and>
        (now - tsValue t \<le> activeEffectDelay t \<and>
         activeEffectDelay t - (now - tsValue t) \<le> 2147483647 \<longrightarrow>
           (\<forall>t'. canHappen (t', Fire (nextHandle (run es)))
                  (step (now, OnEnd i touches) (run es)) =
                (tsValue t + activeEffectDelay t \<le> t'))))"
proof -
  define w where "w = run es"
  define c where "c = w\<lparr>clock := now\<rparr>"
  define e where "e = step (now, OnEnd i touches) w"
  define n where "n = nextHandle w"
  define tm where
    "tm = \<lparr>callback = Stop i, delay = activeEffectDelay t - (now - tsValue t), setAt = now\<rparr>"
  have instw: "instances w i = Some t"
    using inst by (simp add: w_def)
  have wired: "wired c i"
    using instw live by (simp add: wired_def c_def)
  have t0: "\<not> (case touches of None \<Rightarrow> False | Some n \<Rightarrow> 0 < n)"
    using touches by auto
  have hb: "handlesBelow w"
    unfolding w_def by (rule handlesBelow_run)
  have long: "isActive e i = False \<and> set (timers e) \<subseteq> set (timers w)"
    if "100 \<le> now - tsValue t"
  proof -
    have eq: "e = setMember i (\<lambda>s. s\<lparr>isSlide := False\<rparr>) (stop i c)"
      using wired t0 instw act that by (simp add: e_def step_def onEnd_eq c_def)
    have "set (timers (stop i c)) \<subseteq> set (timers c)"
      by (rule stop_timers_subset)
    then show ?thesis
      by (simp add: eq isActive_stop c_def)
  qed
  have short: "isActive e i \<and> timers e = timers w @ [(n, tm)] \<and>
      (\<forall>t'. isActive (step (t', Fire n) e) i = False) \<and>
      (\<forall>t'. canHappen (t', Fire n) e =
         (now + timerDelay (activeEffectDelay t - (now - tsValue t)) \<le> t')) \<and>
      (now - tsValue t \<le> activeEffectDelay t \<and>
       activeEffectDelay t - (now - tsValue t) \<le> 2147483647 \<longrightarrow>
         (\<forall>t'. canHappen (t', Fire n) e = (tsValue t + activeEffectDelay t \<le> t')))"
    if "now - tsValue t < 100"
  proof -
    have eq: "e = setMember i (\<lambda>s. s\<lparr>isSlide := False\<rparr>) (keepLonger i t c)"
      using wired t0 instw act that by (simp add: e_def step_def onEnd_eq c_def)
    have a: "isActive e i"
      using instw act live by (simp add: eq c_def isActive_def setMember_instances)
    have te: "timers e = timers w @ [(n, tm)]"
      by (simp add: eq keepLonger_timers c_def n_def tm_def algebra_simps)
    have "map_of (timers w) n = None"
      unfolding n_def by (rule map_of_fresh [OF hb])
    then have look: "map_of (timers e) n = Some tm"
      by (simp add: te map_add_def)
    have ce: "clock e = now"
      by (simp add: eq c_def)
    have f: "isActive (step (t', Fire n) e) i = False" for t'
      by (rule fire_stop_inactive [OF look]) (simp add: tm_def)
    have can: "canHappen (t', Fire n) e =
        (now + timerDelay (activeEffectDelay t - (now - tsValue t)) \<le> t')" for t'
      using canHappen_new_timer [OF look, of t'] by (simp add: ce tm_def)
    have due: "canHappen (t', Fire n) e = (tsValue t + activeEffectDelay t \<le> t')"
      if "now - tsValue t \<le> activeEffectDelay t"
        "activeEffectDelay t - (now - tsValue t) \<le> 2147483647" for t'
    proof -
      have "timerDelay (activeEffectDelay t - (now - tsValue t)) =
          activeEffectDelay t - (now - tsValue t)"
        using that by (intro timerDelay_id) simp_all
      then show ?thesis
        by (auto simp: can)
    qed
    show ?thesis
      using a te f can due by blast
  qed
  show ?thesis
    using long short unfolding e_def n_def tm_def w_def by blast
qed

theorem release_of_active_instance_witness:
  "isActive (run pressHold) ''a'' \<and>
   isActive (step (1200, OnEnd ''a'' (Some 0)) (run pressHold)) ''a'' = False \<and>
   isActive (step (1100, OnEnd ''a'' (Some 0)) (run pressHold)) ''a'' \<and>
   timers (step (1100, OnEnd ''a'' (Some 0)) (run pressHold)) =
     [(2, \<lparr>callback = Stop ''a'', delay = 570, setAt = 1100\<rparr>)] \<and>
   canHappen (1670, Fire 2) (step (1100, OnEnd ''a'' (Some 0)) (run pressHold)) \<and>
   canHappen (1669, Fire 2) (step (1100, OnEnd ''a'' (Some 0)) (run pressHold)) = False \<and>
   isActive (step (1670, Fire 2) (step (1100, OnEnd ''a'' (Some 0)) (run pressHold))) ''a'' =
     False"
proof -
  let ?t = "(constructor defaultProps)\<lparr>active := True, ts := Some 1070\<rparr>"
  have inst: "instances (run pressHold) ''a'' = Some ?t"
    by code_simp
  have live: "mounted ?t" "\<not> disabled ?t" "active ?t"
    by code_simp+
  have vals: "tsValue ?t = 1070" "activeEffectDelay ?t = 600"
    "nextHandle (run pressHold) = 2" "timers (run pressHold) = []"
    "timerDelay 570 = 570"
    by code_simp+
  have before: "isActive (run pressHold) ''a''"
    by code_simp
  show ?thesis
    using before
      release_of_active_instance [OF inst live, of "Some 0" 1200]
      release_of_active_instance [OF inst live, of "Some 0" 1100]
    by (simp add: vals)
qed


text \<open>
  The release clears the activation timer that the entry of the instance holds, and no
  other one: after \<open>startStart\<close> and a release at 1030 ms the activation timer of the first
  start (handle 1), which the second start dropped from the entry, is still scheduled.
\<close>

lemma short_tap_leaves_older_timer:
  "wellTimed (startStart @ [(1030, OnEnd ''a'' None)]) init \<and>
   isActive (run (startStart @ [(1030, OnEnd ''a'' None)])) ''a'' \<and>
   timers (run (startStart @ [(1030, OnEnd ''a'' None)])) =
     [(1, \<lparr>callback = Start ''a'', delay = 70, setAt = 1000\<rparr>),
      (3, \<lparr>callback = Stop ''a'', delay = 600, setAt = 1030\<rparr>)]"
  by code_simp



text \<open>
  Claim C7, as stated: no instance becomes active from a gesture whose start reports
  more than one contact point. In \<open>twoFingers\<close> the second finger's start purges storage,
  and the release of the last finger activates the instance: \<open>onEnd\<close> activates any
  instance that is neither active nor sliding, with or without an entry.
\<close>

theorem two_fingers_activate:
  "wellTimed twoFingers init \<and>
   isActive (run twoFingers) ''a'' \<and> hasEntry (run twoFingers) ''a'' = False"
  by code_simp

text \<open>
  Claim C7, amended: a gesture start that reports more than one contact point on an
  instance with activation enabled empties storage; for every entry that was there, its
  two timers are out of the timer table and its instance is inactive; no entry is made
  for the starting instance; and the step itself makes no instance active and schedules
  no timer.
\<close>

theorem multi_touch_start_purges:
  assumes inst: "instances w i = Some t"
    and live: "mounted t" "\<not> disabled t"
    and en: "hasActive t"
    and n: "1 < n"
  shows
    "storage (step (now, OnStart i (Some n) x y) w) = [] \<and>
     (\<forall>k item. getStorage k w = Some item \<longrightarrow>
        map_of (timers (step (now, OnStart i (Some n) x y) w)) (activeTimeout item) = None \<and>
        (\<forall>r. timeout item = Some r \<longrightarrow>
           map_of (timers (step (now, OnStart i (Some n) x y) w)) r = None) \<and>
        isActive (step (now, OnStart i (Some n) x y) w) k = False) \<and>
     (\<forall>j. isActive (step (now, OnStart i (Some n) x y) w) j \<longrightarrow> isActive w j) \<and>
     set (timers (step (now, OnStart i (Some n) x y) w)) \<subseteq> set (timers w) \<and>
     nextHandle (step (now, OnStart i (Some n) x y) w) = nextHandle w"
proof -
  let ?w0 = "w\<lparr>clock := now\<rparr>"
  let ?w' = "step (now, OnStart i (Some n) x y) w"
  have eq: "?w' = fold purgeOne (map fst (storage w)) ?w0"
    using inst live en n
    by (simp add: step_def wired_def onStart_def deactivateAll_eq)
  have sto: "getStorage k ?w0 = getStorage k w" for k
    by (simp add: getStorage_def)
  have empty: "storage ?w' = []"
    by (simp add: eq purge_storage)
  have purged: "map_of (timers ?w') (activeTimeout item) = None \<and>
      (\<forall>r. timeout item = Some r \<longrightarrow> map_of (timers ?w') r = None) \<and>
      isActive ?w' k = False"
    if "getStorage k w = Some item" for k item
  proof -
    have key: "k \<in> set (map fst (storage w))"
      using getStorage_key [OF that] by simp
    have a: "map_of (timers ?w') (activeTimeout item) = None"
      using key that by (auto simp: eq purge_timers sto)
    have r: "map_of (timers ?w') r = None" if "timeout item = Some r" for r
      using key \<open>getStorage k w = Some item\<close> that by (auto simp: eq purge_timers sto)
    have "instances ?w' k = map_option deactivated (instances ?w0 k)"
      using key that by (simp add: eq purge_instances sto)
    then have "isActive ?w' k = False"
      by (simp add: isActive_def deactivated_def split: option.splits)
    with a r show ?thesis by blast
  qed
  have mono: "isActive w j" if "isActive ?w' j" for j
    using that
    by (auto simp: eq purge_instances sto isActive_def deactivated_def
        split: option.splits if_splits)
  have sub: "set (timers ?w') \<subseteq> set (timers w)"
    using purge_timers_subset [of "map fst (storage w)" ?w0] by (simp add: eq)
  have nh: "nextHandle ?w' = nextHandle w"
    by (simp add: eq)
  show ?thesis
    using empty purged mono sub nh by blast
qed

theorem multi_touch_start_purges_witness:
  "isActive (run tapPress) ''b'' \<and>
   map fst (storage (run tapPress)) = [''b'', ''a''] \<and>
   map fst (timers (run tapPress)) = [2, 3] \<and>
   storage (step (1120, OnStart ''a'' (Some 2) 0 0) (run tapPress)) = [] \<and>
   map_of (timers (step (1120, OnStart ''a'' (Some 2) 0 0) (run tapPress))) 2 = None \<and>
   map_of (timers (step (1120, OnStart ''a'' (Some 2) 0 0) (run tapPress))) 3 = None \<and>
   isActive (step (1120, OnStart ''a'' (Some 2) 0 0) (run tapPress)) ''b'' = False \<and>
   nextHandle (step (1120, OnStart ''a'' (Some 2) 0 0) (run tapPress)) = 4"
proof -
  let ?t = "constructor defaultProps"
  have inst: "instances (run tapPress) ''a'' = Some ?t"
    by code_simp
  have live: "mounted ?t" "\<not> disabled ?t" "hasActive ?t"
    by code_simp+
  have entries:
    "getStorage ''b'' (run tapPress) = Some \<lparr>activeTimeout = 1, timeout = Some 2\<rparr>"
    "getStorage ''a'' (run tapPress) = Some \<lparr>activeTimeout = 3, timeout = None\<rparr>"
    by code_simp+
  have before: "isActive (run tapPress) ''b''"
    "map fst (storage (run tapPress)) = [''b'', ''a'']"
    "map fst (timers (run tapPress)) = [2, 3]"
    "nextHandle (run tapPress) = 4"
    by code_simp+
  have n: "(1::nat) < 2"
    by simp
  note purge = multi_touch_start_purges [OF inst live n, of 1120 0 0]
  note each = purge [THEN conjunct2, THEN conjunct1, rule_format]
  have b: "map_of (timers (step (1120, OnStart ''a'' (Some 2) 0 0) (run tapPress))) 2 = None \<and>
      isActive (step (1120, OnStart ''a'' (Some 2) 0 0) (run tapPress)) ''b'' = False"
    using each [OF entries(1)] by simp
  have a: "map_of (timers (step (1120, OnStart ''a'' (Some 2) 0 0) (run tapPress))) 3 = None"
    using each [OF entries(2)] by simp
  show ?thesis
    using before a b purge by simp
qed

text \<open>
  Claim C10: \<open>stop\<close> on an instance with an entry in storage, in any world, deletes the
  entry, takes the entry's activation timer out of the timer table and leaves every other
  handle of the table as it was. In every state the code reaches the release handle of an
  entry is another handle than its activation handle, so a release timer stays scheduled.
  When a timer with the callback \<open>stop\<close> fires in a world where the instance is not active
  and has no entry, only the fired timer leaves the table.
\<close>

theorem stop_keeps_release_timer:
  "(\<forall>w item. getStorage i w = Some item \<longrightarrow>
      getStorage i (stop i w) = None \<and>
      map_of (timers (stop i w)) (activeTimeout item) = None \<and>
      (\<forall>h. h \<noteq> activeTimeout item \<longrightarrow>
         map_of (timers (stop i w)) h = map_of (timers w) h)) \<and>
   (\<forall>item r. getStorage i (run es) = Some item \<and> timeout item = Some r \<longrightarrow>
      r \<noteq> activeTimeout item \<and>
      map_of (timers (stop i (run es))) r = map_of (timers (run es)) r) \<and>
   (\<forall>v r tm. map_of (timers v) r = Some tm \<and> callback tm = Stop i \<and>
      \<not> isActive v i \<and> getStorage i v = None \<longrightarrow>
      fire r v = v\<lparr>timers := AList.delete r (timers v)\<rparr>)"
proof -
  have other: "map_of (timers (stop i w)) h = map_of (timers w) h"
    if "getStorage i w = Some item" "h \<noteq> activeTimeout item" for w item h
    using that by (simp add: stop_timers)
  have gone: "getStorage i (stop i w) = None \<and>
      map_of (timers (stop i w)) (activeTimeout item) = None"
    if "getStorage i w = Some item" for w item
    using that by (simp add: stop_getStorage stop_timers delete_conv')
  have rel: "r \<noteq> activeTimeout item \<and>
      map_of (timers (stop i (run es))) r = map_of (timers (run es)) r"
    if "getStorage i (run es) = Some item" "timeout item = Some r" for item r
  proof -
    have "handlesBelow (run es)"
      by (rule handlesBelow_run)
    then have "activeTimeout item < r"
      using that unfolding handlesBelow_def by blast
    then have "r \<noteq> activeTimeout item"
      by simp
    then show ?thesis
      using other [OF that(1)] by simp
  qed
  have noop: "fire r v = v\<lparr>timers := AList.delete r (timers v)\<rparr>"
    if "map_of (timers v) r = Some tm" "callback tm = Stop i" "\<not> isActive v i"
      "getStorage i v = None" for v r tm
    using that
    by (auto simp: fire_def stop_def Let_def isActive_def setState_def getStorage_def
        split: option.splits)
  show ?thesis
    using other gone rel noop by blast
qed

theorem stop_keeps_release_timer_witness:
  "getStorage ''a'' (run pressHoldRelease) = Some \<lparr>activeTimeout = 1, timeout = Some 2\<rparr> \<and>
   getStorage ''a'' (stop ''a'' (run pressHoldRelease)) = None \<and>
   map_of (timers (stop ''a'' (run pressHoldRelease))) 2 =
     Some \<lparr>callback = Stop ''a'', delay = 570, setAt = 1100\<rparr> \<and>
   fire 2 (stop ''a'' (run pressHoldRelease)) =
     (stop ''a'' (run pressHoldRelease))
       \<lparr>timers := AList.delete 2 (timers (stop ''a'' (run pressHoldRelease)))\<rparr>"
proof -
  let ?item = "\<lparr>activeTimeout = 1, timeout = Some 2\<rparr>"
  let ?v = "stop ''a'' (run pressHoldRelease)"
  have entry: "getStorage ''a'' (run pressHoldRelease) = Some ?item"
    by code_simp
  have before: "map_of (timers (run pressHoldRelease)) 2 =
      Some \<lparr>callback = Stop ''a'', delay = 570, setAt = 1100\<rparr>"
    by code_simp
  note S = stop_keeps_release_timer [of "''a''" pressHoldRelease]
  have gone: "getStorage ''a'' ?v = None"
    using S [THEN conjunct1, rule_format, OF entry] by simp
  have "map_of (timers ?v) 2 = map_of (timers (run pressHoldRelease)) 2"
    using S [THEN conjunct2, THEN conjunct1, rule_format, of ?item 2] entry by simp
  then have kept: "map_of (timers ?v) 2 =
      Some \<lparr>callback = Stop ''a'', delay = 570, setAt = 1100\<rparr>"
    using before by simp
  have idle: "\<not> isActive ?v ''a''"
    by (simp add: isActive_stop)
  have "fire 2 ?v = ?v\<lparr>timers := AList.delete 2 (timers ?v)\<rparr>"
    using S [THEN conjunct2, THEN conjunct2, rule_format,
        of ?v 2 "\<lparr>callback = Stop ''a'', delay = 570, setAt = 1100\<rparr>"]
      kept gone idle by simp
  then show ?thesis
    using entry gone kept by simp
qed

text \<open>
  Claim C9, as stated: on every Tappable rendered as a non-native element with the role
  button, Enter and Space synthesize a click. \<^verbatim>\<open>render\<close> installs \<^verbatim>\<open>this.onKeyDown\<close> only
  when \<^verbatim>\<open>restProps.contentEditable\<close> is falsy: on a content-editable \<^verbatim>\<open>div\<close> with the role
  button the keydown reaches the handler of the caller alone, and no click is synthesized.
\<close>

theorem content_editable_no_click:
  "renderOnKeyDown \<lparr>k_Component = ''div'', k_disabled = False, k_contentEditable = True,
     k_role = ''button'', k_onKeyDown = True\<rparr> = CallerHandler \<and>
   keyDown \<lparr>k_Component = ''div'', k_disabled = False, k_contentEditable = True,
     k_role = ''button'', k_onKeyDown = True\<rparr> Enter = [CallerOnKeyDown] \<and>
   keyDown \<lparr>k_Component = ''div'', k_disabled = False, k_contentEditable = True,
     k_role = ''button'', k_onKeyDown = True\<rparr> Space = [CallerOnKeyDown] \<and>
   keyDown \<lparr>k_Component = ''div'', k_disabled = False, k_contentEditable = True,
     k_role = ''link'', k_onKeyDown = False\<rparr> Enter = []"
  by code_simp

text \<open>
  A disabled instance gets none of the handlers of the component either: the assignment
  is in the branch \<^verbatim>\<open>if (!restProps.disabled)\<close>.
\<close>

lemma disabled_no_click:
  "renderOnKeyDown \<lparr>k_Component = ''div'', k_disabled = True, k_contentEditable = False,
     k_role = ''button'', k_onKeyDown = True\<rparr> = CallerHandler \<and>
   keyDown \<lparr>k_Component = ''div'', k_disabled = True, k_contentEditable = False,
     k_role = ''button'', k_onKeyDown = True\<rparr> Enter = [CallerOnKeyDown]"
  by code_simp

text \<open>
  Claim C9, amended: the keydown handler that \<open>render\<close> installs on an instance that is
  not disabled, whose root is not a native control and not content-editable, with the role
  button or link. On a link Enter synthesizes a click and Space does not; on a button both
  do; and a handler of the caller is called once, after everything else, with and without
  a click.
\<close>

theorem keyboard_activation:
  assumes "\<not> k_disabled p" and "k_Component p \<notin> set nativeComponents"
    and "\<not> k_contentEditable p"
  shows
    "(k_role p = ''link'' \<longrightarrow>
        ContainerClick \<in> set (keyDown p Enter) \<and> ContainerClick \<notin> set (keyDown p Space)) \<and>
     (k_role p = ''button'' \<longrightarrow>
        ContainerClick \<in> set (keyDown p Enter) \<and> ContainerClick \<in> set (keyDown p Space)) \<and>
     (k_role p = ''link'' \<or> k_role p = ''button'' \<longrightarrow> k_onKeyDown p \<longrightarrow>
        keyDown p k \<noteq> [] \<and> last (keyDown p k) = CallerOnKeyDown \<and>
        CallerOnKeyDown \<notin> set (butlast (keyDown p k)))"
  using assms
  by (auto simp: keyDown_def renderOnKeyDown_def onKeyDown_def
      shouldTriggerClickOnEnterOrSpace_def)

theorem keyboard_activation_witness:
  "ContainerClick \<in> set (keyDown \<lparr>k_Component = ''div'', k_disabled = False,
       k_contentEditable = False, k_role = ''link'', k_onKeyDown = True\<rparr> Enter) \<and>
   ContainerClick \<notin> set (keyDown \<lparr>k_Component = ''div'', k_disabled = False,
       k_contentEditable = False, k_role = ''link'', k_onKeyDown = True\<rparr> Space) \<and>
   last (keyDown \<lparr>k_Component = ''div'', k_disabled = False,
       k_contentEditable = False, k_role = ''link'', k_onKeyDown = True\<rparr> Space) =
     CallerOnKeyDown \<and>
   ContainerClick \<in> set (keyDown \<lparr>k_Component = ''div'', k_disabled = False,
       k_contentEditable = False, k_role = ''button'', k_onKeyDown = True\<rparr> Space) \<and>
   last (keyDown \<lparr>k_Component = ''div'', k_disabled = False,
       k_contentEditable = False, k_role = ''button'', k_onKeyDown = True\<rparr> Space) =
     CallerOnKeyDown"
proof -
  let ?l = "\<lparr>k_Component = ''div'', k_disabled = False, k_contentEditable = False,
            k_role = ''link'', k_onKeyDown = True\<rparr>"
  let ?b = "\<lparr>k_Component = ''div'', k_disabled = False, k_contentEditable = False,
            k_role = ''button'', k_onKeyDown = True\<rparr>"
  have l: "\<not> k_disabled ?l" "k_Component ?l \<notin> set nativeComponents" "\<not> k_contentEditable ?l"
    by (simp_all add: nativeComponents_def)
  have b: "\<not> k_disabled ?b" "k_Component ?b \<notin> set nativeComponents" "\<not> k_contentEditable ?b"
    by (simp_all add: nativeComponents_def)
  show ?thesis
    using keyboard_activation [OF l, of Space] keyboard_activation [OF b, of Space]
    by simp
qed

end
